theory Spec2Isabelle
  imports Main
begin

section \<open>JavaScript values and errors\<close>

text \<open>
  The parser's entry points are called with whatever the caller passes at run time.
  \<open>js_value\<close> holds the primitive values they are called with here: \<open>undefined\<close>,
  \<open>null\<close>, a boolean, a number or a string. Objects (a \<open>String\<close> object, an object with
  a \<open>match\<close> method of its own) are not among them, and nothing below speaks about
  them. A thrown exception is the left summand of the result.
\<close>

datatype js_error = TypeError

datatype js_value = Undefined | Null | Boolean bool | Number int | String string

section \<open>The TTL cache (class MemoryCache)\<close>

record 'a CacheEntry =
  data :: 'a
  timestamp :: int
  ttl :: int

record CacheOptions =
  options_ttl :: "int option"
  options_maxSize :: "int option"

text \<open>
  The private field \<open>cache\<close> is a JavaScript \<open>Map\<close>: its keys are unique, it iterates in
  insertion order, \<open>set\<close> on a present key keeps the key's position, and \<open>delete\<close> removes
  the key. \<open>cleanupInterval\<close> records whether the sweep timer is armed.
\<close>

record 'a MemoryCache =
  cache :: "(string \<times> 'a CacheEntry) list"
  defaultTtl :: int
  maxSize :: int
  cleanupInterval :: bool

fun Map_get :: "(string \<times> 'v) list \<Rightarrow> string \<Rightarrow> 'v option" where
  "Map_get [] k = None"
| "Map_get ((k', v) # rest) k = (if k' = k then Some v else Map_get rest k)"

fun Map_set :: "string \<Rightarrow> 'v \<Rightarrow> (string \<times> 'v) list \<Rightarrow> (string \<times> 'v) list" where
  "Map_set k v [] = [(k, v)]"
| "Map_set k v ((k', v') # rest) =
     (if k' = k then (k, v) # rest else (k', v') # Map_set k v rest)"

fun Map_delete :: "string \<Rightarrow> (string \<times> 'v) list \<Rightarrow> (string \<times> 'v) list" where
  "Map_delete k [] = []"
| "Map_delete k ((k', v') # rest) =
     (if k' = k then Map_delete k rest else (k', v') # Map_delete k rest)"

definition Map_keys :: "(string \<times> 'v) list \<Rightarrow> string list" where
  "Map_keys m = map fst m"

text \<open>\<open>x || d\<close> on an optional number: \<open>undefined\<close> and \<open>0\<close> are falsy.\<close>

definition or_default :: "int option \<Rightarrow> int \<Rightarrow> int" where
  "or_default x d = (case x of None \<Rightarrow> d | Some n \<Rightarrow> if n = 0 then d else n)"

text \<open>
  The constructor has no \<open>throw\<close>; it is given a result type with an error summand so
  that "construction fails" can be stated about it.
\<close>

definition MemoryCache_new :: "CacheOptions \<Rightarrow> js_error + 'a MemoryCache" where
  "MemoryCache_new options =
     Inr \<lparr> cache = [],
           defaultTtl = or_default (options_ttl options) 3600000,
           maxSize = or_default (options_maxSize options) 1000,
           cleanupInterval = True \<rparr>"

definition expired :: "'a CacheEntry \<Rightarrow> int \<Rightarrow> bool" where
  "expired entry now = (now > timestamp entry + ttl entry)"

fun cleanExpired_loop :: "(string \<times> 'a CacheEntry) list \<Rightarrow> int \<Rightarrow> (string \<times> 'a CacheEntry) list" where
  "cleanExpired_loop [] now = []"
| "cleanExpired_loop ((key, entry) # rest) now =
     (if expired entry now then cleanExpired_loop rest now
      else (key, entry) # cleanExpired_loop rest now)"

definition cleanExpired :: "'a MemoryCache \<Rightarrow> int \<Rightarrow> 'a MemoryCache" where
  "cleanExpired c now = c\<lparr>cache := cleanExpired_loop (cache c) now\<rparr>"

text \<open>
  The loop of \<open>evictOldest\<close> over \<open>this.cache.entries()\<close>, carrying
  \<open>(oldestKey, oldestTime)\<close>; \<open>oldestKey\<close> starts as \<open>null\<close> and \<open>oldestTime\<close> as
  the clock reading.
\<close>

fun evictOldest_loop ::
  "(string \<times> 'a CacheEntry) list \<Rightarrow> string option \<times> int \<Rightarrow> string option \<times> int" where
  "evictOldest_loop [] acc = acc"
| "evictOldest_loop ((key, entry) # rest) (oldestKey, oldestTime) =
     (if timestamp entry < oldestTime
      then evictOldest_loop rest (Some key, timestamp entry)
      else evictOldest_loop rest (oldestKey, oldestTime))"

text \<open>\<open>if (oldestKey)\<close>: \<open>null\<close> and the empty string are falsy.\<close>

definition evictOldest :: "'a MemoryCache \<Rightarrow> int \<Rightarrow> 'a MemoryCache" where
  "evictOldest c now =
     (case fst (evictOldest_loop (cache c) (None, now)) of
        None \<Rightarrow> c
      | Some oldestKey \<Rightarrow>
          if oldestKey \<noteq> [] then c\<lparr>cache := Map_delete oldestKey (cache c)\<rparr> else c)"

text \<open>
  \<open>set\<close> reads the clock inside \<open>evictOldest\<close> (\<open>tEvict\<close>) and again for the new
  entry's timestamp (\<open>tNow\<close>).
\<close>

definition set_entry ::
  "'a MemoryCache \<Rightarrow> string \<Rightarrow> 'a \<Rightarrow> int option \<Rightarrow> int \<Rightarrow> int \<Rightarrow> 'a MemoryCache" where
  "set_entry c key d ttl_opt tEvict tNow =
     (let c1 = (if int (length (cache c)) \<ge> maxSize c then evictOldest c tEvict else c);
          entry = \<lparr> data = d, timestamp = tNow, ttl = or_default ttl_opt (defaultTtl c) \<rparr>
      in c1\<lparr>cache := Map_set key entry (cache c1)\<rparr>)"

definition get :: "'a MemoryCache \<Rightarrow> string \<Rightarrow> int \<Rightarrow> 'a option \<times> 'a MemoryCache" where
  "get c key now =
     (case Map_get (cache c) key of
        None \<Rightarrow> (None, c)
      | Some entry \<Rightarrow>
          if now > timestamp entry + ttl entry
          then (None, c\<lparr>cache := Map_delete key (cache c)\<rparr>)
          else (Some (data entry), c))"

definition has :: "'a MemoryCache \<Rightarrow> string \<Rightarrow> int \<Rightarrow> bool \<times> 'a MemoryCache" where
  "has c key now =
     (case Map_get (cache c) key of
        None \<Rightarrow> (False, c)
      | Some entry \<Rightarrow>
          if now > timestamp entry + ttl entry
          then (False, c\<lparr>cache := Map_delete key (cache c)\<rparr>)
          else (True, c))"

definition delete_entry :: "'a MemoryCache \<Rightarrow> string \<Rightarrow> bool \<times> 'a MemoryCache" where
  "delete_entry c key =
     (Map_get (cache c) key \<noteq> None, c\<lparr>cache := Map_delete key (cache c)\<rparr>)"

definition clear :: "'a MemoryCache \<Rightarrow> 'a MemoryCache" where
  "clear c = c\<lparr>cache := []\<rparr>"

definition size_of :: "'a MemoryCache \<Rightarrow> nat" where
  "size_of c = length (cache c)"

definition keys :: "'a MemoryCache \<Rightarrow> string list" where
  "keys c = Map_keys (cache c)"

definition destroy :: "'a MemoryCache \<Rightarrow> 'a MemoryCache" where
  "destroy c = clear (c\<lparr>cleanupInterval := False\<rparr>)"

text \<open>Reading the same key at each of a list of clock readings, in order.\<close>

fun get_repeatedly :: "'a MemoryCache \<Rightarrow> string \<Rightarrow> int list \<Rightarrow> 'a MemoryCache" where
  "get_repeatedly c key [] = c"
| "get_repeatedly c key (now # nows) = get_repeatedly (snd (get c key now)) key nows"

text \<open>A full cache of capacity two, used to evaluate the operations.\<close>

definition two_entries :: "nat MemoryCache" where
  "two_entries =
     \<lparr> cache = [(''a'', \<lparr>data = 1, timestamp = 1, ttl = 1000\<rparr>),
                (''b'', \<lparr>data = 2, timestamp = 2, ttl = 1000\<rparr>)],
       defaultTtl = 3600000, maxSize = 2, cleanupInterval = True \<rparr>"

text \<open>A full cache of capacity two whose entries were both stored at time 5.\<close>

definition same_instant :: "nat MemoryCache" where
  "same_instant =
     \<lparr> cache = [(''a'', \<lparr>data = 1, timestamp = 5, ttl = 1000\<rparr>),
                (''b'', \<lparr>data = 2, timestamp = 5, ttl = 1000\<rparr>)],
       defaultTtl = 3600000, maxSize = 2, cleanupInterval = True \<rparr>"

section \<open>Strings and regular expressions of the parser\<close>

text \<open>
  A JavaScript string is a sequence of UTF-16 code units. A document is modelled as a
  \<open>string\<close> whose characters stand for the code units below 256, so \<open>length\<close> is the
  JavaScript \<open>.length\<close>. In this range the white space of \<open>\s\<close> and of \<open>trim()\<close>
  is tab, line feed, vertical tab, form feed, carriage return, space and the no-break
  space; \<open>.\<close> is every unit but line feed and carriage return.
\<close>

definition is_space :: "char \<Rightarrow> bool" where
  "is_space c = (c \<in> set [CHR 0x09, CHR 0x0A, CHR 0x0B, CHR 0x0C, CHR 0x0D, CHR 0x20, CHR 0xA0])"

definition is_digit :: "char \<Rightarrow> bool" where
  "is_digit c = (c \<in> set ''0123456789'')"

definition is_word :: "char \<Rightarrow> bool" where
  "is_word c =
     (c \<in> set ''abcdefghijklmnopqrstuvwxyzABCDEFGHIJKLMNOPQRSTUVWXYZ0123456789_'')"

definition is_dot :: "char \<Rightarrow> bool" where
  "is_dot c = (c \<noteq> CHR 0x0A \<and> c \<noteq> CHR 0x0D)"

definition any_char :: "char \<Rightarrow> bool" where
  "any_char c = True"

definition is_char :: "char \<Rightarrow> char \<Rightarrow> bool" where
  "is_char a c = (c = a)"

text \<open>
  \<open>toLowerCase()\<close> on code units below 256: \<open>A\<close>-\<open>Z\<close> and the Latin-1 capitals
  \<open>0xC0\<close>-\<open>0xDE\<close> (without the multiplication sign \<open>0xD7\<close>) move up by 32.
\<close>

definition lower_char :: "char \<Rightarrow> char" where
  "lower_char c =
     (case map_of (zip ''ABCDEFGHIJKLMNOPQRSTUVWXYZ'' ''abcdefghijklmnopqrstuvwxyz'') c of
        Some l \<Rightarrow> l
      | None \<Rightarrow>
          (let n = (of_char c :: nat)
           in if 192 \<le> n \<and> n \<le> 222 \<and> n \<noteq> 215 then char_of (n + 32) else c))"

definition toLowerCase :: "string \<Rightarrow> string" where
  "toLowerCase s = map lower_char s"

text \<open>
  A literal letter of a pattern under the flag \<open>i\<close>. All letters of the patterns are
  ASCII, and a code unit from 128 on is never folded onto an ASCII one, so the unit
  matches exactly when it is the letter in either case.
\<close>

definition is_char_i :: "char \<Rightarrow> char \<Rightarrow> bool" where
  "is_char_i a c =
     (let n = (of_char c :: nat); m = (of_char a :: nat)
      in (if 65 \<le> n \<and> n \<le> 90 then n + 32 else n) = (if 65 \<le> m \<and> m \<le> 90 then m + 32 else m))"

text \<open>
  The patterns of the parser are sequences of items over single code units: one unit of
  a class, a greedy or a lazy star of a class, a greedy bounded repetition, the end
  anchor \<open>$\<close>, and the boundary of a capture group. \<open>x+\<close> is \<open>x\<close> followed by \<open>x*\<close>,
  \<open>x{1,n}\<close> is \<open>x\<close> followed by \<open>x{0,n-1}\<close>, and \<open>x?\<close> is \<open>x{0,1}\<close>.
\<close>

datatype item =
    Chr "char \<Rightarrow> bool"
  | Star "char \<Rightarrow> bool"
  | Lazy "char \<Rightarrow> bool"
  | Upto nat "char \<Rightarrow> bool"
  | Eol
  | Mark

text \<open>
  \<open>rx p s\<close> runs the backtracking matcher of pattern \<open>p\<close> at the start of \<open>s\<close>. The
  result lists the rest of the input at every \<open>Mark\<close> passed and, last, the rest after
  the whole match; the alternatives are tried in the order of the ECMAScript matcher
  (a greedy star takes the longer repetition first, a lazy one the shorter).
\<close>

fun rx :: "item list \<Rightarrow> string \<Rightarrow> string list option" where
  "rx [] s = Some [s]"
| "rx (Mark # p) s = map_option (Cons s) (rx p s)"
| "rx (Eol # p) s = (if s = [] then rx p s else None)"
| "rx (Chr f # p) [] = None"
| "rx (Chr f # p) (c # cs) = (if f c then rx p cs else None)"
| "rx (Lazy f # p) [] = rx p []"
| "rx (Lazy f # p) (c # cs) =
     (case rx p (c # cs) of
        Some m \<Rightarrow> Some m
      | None \<Rightarrow> if f c then rx (Lazy f # p) cs else None)"
| "rx (Star f # p) [] = rx p []"
| "rx (Star f # p) (c # cs) =
     (if f c
      then (case rx (Star f # p) cs of Some m \<Rightarrow> Some m | None \<Rightarrow> rx p (c # cs))
      else rx p (c # cs))"
| "rx (Upto 0 f # p) s = rx p s"
| "rx (Upto (Suc n) f # p) [] = rx p []"
| "rx (Upto (Suc n) f # p) (c # cs) =
     (if f c
      then (case rx (Upto n f # p) cs of Some m \<Rightarrow> Some m | None \<Rightarrow> rx p (c # cs))
      else rx p (c # cs))"

text \<open>A literal, and a literal under the flag \<open>i\<close>.\<close>

definition lit :: "string \<Rightarrow> item list" where
  "lit w = map (\<lambda>a. Chr (is_char a)) w"

definition lit_i :: "string \<Rightarrow> item list" where
  "lit_i w = map (\<lambda>a. Chr (is_char_i a)) w"

definition plus :: "(char \<Rightarrow> bool) \<Rightarrow> item list" where
  "plus f = [Chr f, Star f]"

text \<open>
  \<open>exec\<close> of a pattern without \<open>^\<close>: the first index at which the matcher succeeds,
  with the matcher's result there. \<open>test\<close> asks whether there is one; a pattern that
  begins with \<open>^\<close> (no flag \<open>m\<close>) is tried at index 0 only.
\<close>

fun exec :: "item list \<Rightarrow> string \<Rightarrow> (nat \<times> string list) option" where
  "exec p [] = map_option (Pair 0) (rx p [])"
| "exec p (c # cs) =
     (case rx p (c # cs) of
        Some m \<Rightarrow> Some (0, m)
      | None \<Rightarrow> map_option (\<lambda>(i, m). (Suc i, m)) (exec p cs))"

definition test :: "item list \<Rightarrow> string \<Rightarrow> bool" where
  "test p s = (exec p s \<noteq> None)"

definition test_anchored :: "item list \<Rightarrow> string \<Rightarrow> bool" where
  "test_anchored p s = (rx p s \<noteq> None)"

text \<open>
  \<open>s.match(p)\<close> for a pattern without the flag \<open>g\<close>: \<open>null\<close>, or the match, of which the
  callers read element 0, the matched text.
\<close>

definition match0 :: "item list \<Rightarrow> string \<Rightarrow> string option" where
  "match0 p s =
     (case exec p s of
        None \<Rightarrow> None
      | Some (i, m) \<Rightarrow> Some (take (length s - i - length (last m)) (drop i s)))"

text \<open>
  \<open>s.replace(p, r)\<close> for a pattern with the flag \<open>g\<close>: every match, found from left to
  right and each search starting where the last match ended, is replaced by \<open>r\<close>; after
  an empty match the search moves on by one code unit.
\<close>

fun replace_all :: "item list \<Rightarrow> string \<Rightarrow> string \<Rightarrow> string" where
  "replace_all p r [] = (case rx p [] of Some m \<Rightarrow> r | None \<Rightarrow> [])"
| "replace_all p r (c # cs) =
     (case rx p (c # cs) of
        None \<Rightarrow> c # replace_all p r cs
      | Some m \<Rightarrow>
          if length (last m) < Suc (length cs)
          then r @ replace_all p r (last m)
          else r @ c # replace_all p r cs)"

text \<open>\<open>s.replace(p, r)\<close> for a pattern without the flag \<open>g\<close> that begins with \<open>^\<close>.\<close>

definition replace_anchored :: "item list \<Rightarrow> string \<Rightarrow> string \<Rightarrow> string" where
  "replace_anchored p r s = (case rx p s of None \<Rightarrow> s | Some m \<Rightarrow> r @ last m)"

definition trim :: "string \<Rightarrow> string" where
  "trim s = rev (dropWhile is_space (rev (dropWhile is_space s)))"

text \<open>\<open>s.split('\n')\<close> and \<open>lines.join('\n')\<close>.\<close>

fun split_lines :: "string \<Rightarrow> string list" where
  "split_lines [] = [[]]"
| "split_lines (c # cs) =
     (if c = CHR 0x0A then [] # split_lines cs
      else (case split_lines cs of
              [] \<Rightarrow> [[c]]
            | l # ls \<Rightarrow> (c # l) # ls))"

fun join_lines :: "string list \<Rightarrow> string" where
  "join_lines [] = []"
| "join_lines [l] = l"
| "join_lines (l # ls) = l @ CHR 0x0A # join_lines ls"

text \<open>\<open>String(n)\<close> for a non-negative integer, as the template literal prints it.\<close>

fun digits :: "nat \<Rightarrow> string" where
  "digits n = (if n < 10 then [''0123456789'' ! n] else digits (n div 10) @ [''0123456789'' ! (n mod 10)])"

section \<open>The README parser (class ReadmeParser)\<close>

record UsageExample =
  title :: string
  description :: "string option"
  code :: string
  language :: string

text \<open>An element of the array that \<open>extractCodeBlocks\<close> returns.\<close>

record CodeBlock =
  block_code :: string
  block_language :: string
  originalIndex :: nat

record InstallationInstructions =
  podfile :: "string option"
  carthage :: "string option"
  spm :: "string option"

definition is_quote :: "char \<Rightarrow> bool" where
  "is_quote c = (c = CHR 0x27 \<or> c = CHR 0x22)"

definition not_quote :: "char \<Rightarrow> bool" where
  "not_quote c = (\<not> is_quote c)"

definition hash_prefix :: "nat \<Rightarrow> item list" where
  "hash_prefix n = [Chr (is_char CHR ''#''), Upto (n - 1) (is_char CHR ''#'')]"

text \<open>
  \<open>USAGE_SECTION_PATTERNS\<close>. Each pattern is \<open>^#{1,4}\s*(w1|w2|...)\<close> under the flag
  \<open>i\<close> and is only used through \<open>test\<close>, which succeeds exactly when the pattern with
  one of its alternatives in place of the group does; each pattern is given as the list
  of these.
\<close>

definition section_pattern :: "string list \<Rightarrow> item list list" where
  "section_pattern ws = map (\<lambda>w. hash_prefix 4 @ [Star is_space] @ lit_i w) ws"

definition USAGE_SECTION_PATTERNS :: "item list list list" where
  "USAGE_SECTION_PATTERNS =
     [section_pattern [''usage'', ''how to use'', ''getting started'', ''quick start'',
                       ''example'', ''examples''],
      section_pattern [''installation'', ''install''],
      section_pattern [''implementation'', ''integration''],
      section_pattern [''setup'', ''configuration'']]"

definition test_alternatives :: "item list list \<Rightarrow> string \<Rightarrow> bool" where
  "test_alternatives ps s = list_ex (\<lambda>p. test_anchored p s) ps"

text \<open>
  \<open>CODE_BLOCK_PATTERN\<close>, \<open>```(\w+)?\s*\n([\s\S]*?)\n```\<close>. The optional group
  \<open>(\w+)?\<close> tries the repetitions of \<open>\w\<close> from the longest to none, as the greedy
  star does, and the callers read a group that did not take part as the empty string;
  the marks are the boundaries of the two groups.
\<close>

definition CODE_BLOCK_PATTERN :: "item list" where
  "CODE_BLOCK_PATTERN =
     lit [CHR 0x60, CHR 0x60, CHR 0x60] @
     [Mark, Star is_word, Mark, Star is_space, Chr (is_char CHR 0x0A), Mark, Lazy any_char, Mark,
      Chr (is_char CHR 0x0A)] @
     lit [CHR 0x60, CHR 0x60, CHR 0x60]"

definition between :: "string \<Rightarrow> string \<Rightarrow> string" where
  "between a b = take (length a - length b) a"

lemma rx_rest:
  "rx p s = Some m \<Longrightarrow> m \<noteq> [] \<and> length (last m) \<le> length s"
  by (induction p s arbitrary: m rule: rx.induct)
     (fastforce split: if_splits option.splits)+

lemma rx_Chr_rest:
  "rx (Chr f # p) s = Some m \<Longrightarrow> length (last m) < length s"
  by (cases s) (auto split: if_splits dest: rx_rest)

text \<open>
  The loop of \<open>extractCodeBlocks\<close>: \<open>exec\<close> with the flag \<open>g\<close> searches from
  \<open>lastIndex\<close>, here the start of the remaining text, whose offset in the content is
  \<open>i\<close>, and sets \<open>lastIndex\<close> to the end of the match.
\<close>

function extractCodeBlocks_from :: "nat \<Rightarrow> string \<Rightarrow> CodeBlock list" where
  "extractCodeBlocks_from i [] = []"
| "extractCodeBlocks_from i (c # cs) =
     (case rx CODE_BLOCK_PATTERN (c # cs) of
        None \<Rightarrow> extractCodeBlocks_from (Suc i) cs
      | Some m \<Rightarrow>
          \<lparr> block_code = between (m ! 2) (m ! 3),
            block_language = between (m ! 0) (m ! 1),
            originalIndex = i \<rparr>
          # extractCodeBlocks_from (i + (Suc (length cs) - length (last m))) (last m))"
  by pat_completeness auto
termination
proof (relation "measure (\<lambda>(i, s). length s)")
  fix i :: nat and c :: char and cs :: string and m :: "string list"
  assume "rx CODE_BLOCK_PATTERN (c # cs) = Some m"
  then have "length (last m) < length (c # cs)"
    unfolding CODE_BLOCK_PATTERN_def lit_def by (simp only: list.map append_Cons rx_Chr_rest)
  then show "((i + (Suc (length cs) - length (last m)), last m), (i, c # cs)) \<in> measure (\<lambda>(i, s). length s)"
    by simp
qed simp_all

definition extractCodeBlocks :: "string \<Rightarrow> CodeBlock list" where
  "extractCodeBlocks content = extractCodeBlocks_from 0 content"

text \<open>
  \<open>irrelevantPatterns\<close>, all anchored at the start and tested on the trimmed code. The
  first pattern, \<open>^(version|changelog|license|copyright)\<close> under the flag \<open>i\<close>, is
  listed by its four alternatives.
\<close>

definition word_or_space :: "char \<Rightarrow> bool" where
  "word_or_space c = (is_word c \<or> is_space c)"

definition irrelevantPatterns :: "item list list" where
  "irrelevantPatterns =
     [lit_i ''version'', lit_i ''changelog'', lit_i ''license'', lit_i ''copyright'',
      plus is_digit @ lit ''.'' @ plus is_digit @ lit ''.'' @ plus is_digit,
      lit ''http'' @ [Upto 1 (is_char CHR ''s'')] @ lit ''://'',
      [Star word_or_space, Chr (is_char CHR '':''), Star word_or_space, Eol],
      [Star is_space, Chr (is_char CHR ''#''), Star is_space] @ plus is_word @ [Star is_space, Eol]]"

definition relevantLanguages :: "string list" where
  "relevantLanguages =
     [''swift'', ''objc'', ''objective-c'', ''ruby'', ''bash'', ''shell'', ''json'', ''plist'']"

text \<open>\<open>iosKeywords\<close>, each compiled with the flag \<open>i\<close> and searched anywhere in the code.\<close>

definition iosKeywords :: "item list list" where
  "iosKeywords =
     [lit_i ''import'' @ plus is_space @ plus is_word,
      lit_i ''class'' @ plus is_space @ plus is_word,
      lit_i ''func'' @ plus is_space @ plus is_word,
      lit_i ''pod'' @ plus is_space @ [Chr is_quote],
      lit_i ''CocoaPods'', lit_i ''Podfile'', lit_i ''Podspec'',
      lit_i ''UIKit'', lit_i ''Foundation'', lit_i ''SwiftUI'',
      lit_i ''@IBOutlet'', lit_i ''@IBAction'', lit_i ''@objc'',
      lit_i ''viewDidLoad'', lit_i ''override'' @ plus is_space @ lit_i ''func'']"

definition isRelevantCodeBlock :: "string \<Rightarrow> string \<Rightarrow> bool" where
  "isRelevantCodeBlock code_text lang =
     (if code_text = [] \<or> length (trim code_text) < 10 then False
      else if list_ex (\<lambda>pattern. test_anchored pattern (trim code_text)) irrelevantPatterns then False
      else if lang \<noteq> [] \<and> toLowerCase lang \<in> set relevantLanguages then True
      else list_ex (\<lambda>keyword. test keyword code_text) iosKeywords
           \<or> (lang = [] \<and> length code_text > 20))"

definition word_or_dash :: "char \<Rightarrow> bool" where
  "word_or_dash c = (is_word c \<or> c = CHR ''-'')"

definition detectLanguage :: "string \<Rightarrow> string" where
  "detectLanguage code_text =
     (if test_anchored ([Star is_space] @ lit ''pod'' @ plus is_space @ [Chr is_quote]) code_text
      then ''ruby''
      else if list_ex (\<lambda>p. test p code_text)
                [lit ''import'' @ plus is_space @ plus is_word,
                 lit ''func'' @ plus is_space @ plus is_word,
                 lit ''class'' @ plus is_space @ plus is_word @ [Star is_dot] @ lit ''{'',
                 lit ''var'' @ plus is_space @ plus is_word,
                 lit ''let'' @ plus is_space @ plus is_word]
      then ''swift''
      else if list_ex (\<lambda>p. test p code_text)
                [lit ''@interface'', lit ''@implementation'', lit ''@property'',
                 lit ''*'' @ plus is_word, lit ''#import'']
      then ''objective-c''
      else if list_ex (\<lambda>p. test p code_text)
                [lit ''$'' @ [Star is_space] @ plus is_word, lit ''sudo'', lit ''brew'',
                 lit ''curl'', lit ''git'' @ plus is_space @ lit ''clone'']
      then ''bash''
      else if test_anchored ([Star is_space] @ lit ''{'' @ [Star any_char] @ lit ''}'' @ [Star is_space, Eol])
                (trim code_text)
              \<and> test ([Chr is_quote] @ plus word_or_dash @ [Chr is_quote, Star is_space] @ lit '':'') code_text
      then ''json''
      else ''text'')"

text \<open>The \<open>for\<close> loop of \<open>extractBlockDescription\<close> over the reversed lines.\<close>

definition is_description :: "string \<Rightarrow> bool" where
  "is_description trimmed =
     (trimmed \<noteq> [] \<and> \<not> test_anchored (hash_prefix 6 @ [Chr is_space]) trimmed
      \<and> length trimmed > 10)"

fun description_loop :: "string list \<Rightarrow> string option" where
  "description_loop [] = None"
| "description_loop (line # rest) =
     (let trimmed = trim line
      in if is_description trimmed then Some trimmed else description_loop rest)"

definition extractBlockDescription :: "string \<Rightarrow> nat \<Rightarrow> string option" where
  "extractBlockDescription content blockIndex =
     (let beforeBlock = take blockIndex content;
          lines = rev (split_lines beforeBlock)
      in description_loop lines)"

text \<open>
  The \<open>forEach\<close> of \<open>extractCodeBlocksFromSection\<close>: \<open>n\<close> is \<open>codeBlocks.length\<close> and
  \<open>index\<close> the position of the block at the head of the list.
\<close>

fun forEach_block :: "string \<Rightarrow> string \<Rightarrow> nat \<Rightarrow> nat \<Rightarrow> CodeBlock list \<Rightarrow> UsageExample list" where
  "forEach_block sectionTitle content n index [] = []"
| "forEach_block sectionTitle content n index (block # rest) =
     (if isRelevantCodeBlock (block_code block) (block_language block)
      then [\<lparr> title = (if n = 1 then sectionTitle else sectionTitle @ '' '' @ digits (index + 1)),
              description = extractBlockDescription content (originalIndex block),
              code = trim (block_code block),
              language = (if block_language block \<noteq> [] then block_language block
                          else detectLanguage (block_code block)) \<rparr>]
      else [])
     @ forEach_block sectionTitle content n (Suc index) rest"

definition extractCodeBlocksFromSection :: "string \<Rightarrow> string \<Rightarrow> UsageExample list" where
  "extractCodeBlocksFromSection sectionTitle content =
     (let codeBlocks = extractCodeBlocks content
      in forEach_block sectionTitle content (length codeBlocks) 0 codeBlocks)"

text \<open>The loop of \<open>deduplicateExamples\<close>, carrying the set \<open>seen\<close>.\<close>

fun deduplicate_loop :: "UsageExample list \<Rightarrow> string list \<Rightarrow> UsageExample list" where
  "deduplicate_loop [] seen = []"
| "deduplicate_loop (example # rest) seen =
     (let normalizedCode = toLowerCase (trim (replace_all (plus is_space) '' '' (code example)));
          hash = language example @ '':'' @ normalizedCode
      in if hash \<notin> set seen then example # deduplicate_loop rest (hash # seen)
         else deduplicate_loop rest seen)"

definition deduplicateExamples :: "UsageExample list \<Rightarrow> UsageExample list" where
  "deduplicateExamples examples = deduplicate_loop examples []"

definition is_heading :: "string \<Rightarrow> bool" where
  "is_heading line = test_anchored (hash_prefix 4 @ [Chr is_space]) line"

text \<open>
  The loop of \<open>parseUsageExamples\<close> over the lines, carrying \<open>examples\<close>,
  \<open>currentSection\<close>, \<open>isInUsageSection\<close> and \<open>sectionContent\<close>.
\<close>

fun parse_loop ::
  "string list \<Rightarrow> UsageExample list \<times> string \<times> bool \<times> string list \<Rightarrow>
   UsageExample list \<times> string \<times> bool \<times> string list" where
  "parse_loop [] st = st"
| "parse_loop (line # rest) (examples, currentSection, isInUsageSection, sectionContent) =
     (if is_heading line
      then parse_loop rest
             ((if isInUsageSection \<and> sectionContent \<noteq> []
               then examples @ extractCodeBlocksFromSection currentSection (join_lines sectionContent)
               else examples),
              trim (replace_anchored (hash_prefix 4 @ [Star is_space]) [] line),
              list_ex (\<lambda>pattern. test_alternatives pattern line) USAGE_SECTION_PATTERNS,
              [])
      else if isInUsageSection
      then parse_loop rest (examples, currentSection, isInUsageSection, sectionContent @ [line])
      else parse_loop rest (examples, currentSection, isInUsageSection, sectionContent))"

text \<open>The examples found section by section, before the global fallback.\<close>

definition section_examples :: "string \<Rightarrow> UsageExample list" where
  "section_examples readme =
     (case parse_loop (split_lines readme) ([], [], False, []) of
        (examples, currentSection, isInUsageSection, sectionContent) \<Rightarrow>
          if isInUsageSection \<and> sectionContent \<noteq> []
          then examples @ extractCodeBlocksFromSection currentSection (join_lines sectionContent)
          else examples)"

definition parseUsageExamples :: "js_value \<Rightarrow> UsageExample list" where
  "parseUsageExamples v =
     (case v of
        String readme \<Rightarrow>
          if readme = [] then []
          else (let examples = section_examples readme
                in deduplicateExamples
                     (if examples = []
                      then examples @ extractCodeBlocksFromSection ''General Usage'' readme
                      else examples))
      | _ \<Rightarrow> [])"

text \<open>The four replacements of \<open>cleanReadmeContent\<close>, in order, and the final \<open>trim\<close>.\<close>

definition badge_pattern :: "item list" where
  "badge_pattern =
     lit ''[!['' @ [Lazy is_dot] @ lit ''](''  @ [Lazy is_dot] @ lit '')]('' @ [Lazy is_dot] @ lit '')''"

definition shields_pattern :: "item list" where
  "shields_pattern =
     lit ''!['' @ [Lazy is_dot] @ lit '']('' @ [Lazy is_dot] @ lit ''shields.io'' @ [Lazy is_dot]
     @ lit '')''"

definition comment_pattern :: "item list" where
  "comment_pattern = lit ''<!--'' @ [Lazy any_char] @ lit ''-->''"

definition blank_lines_pattern :: "item list" where
  "blank_lines_pattern =
     [Chr (is_char CHR 0x0A), Star is_space, Chr (is_char CHR 0x0A), Star is_space,
      Chr (is_char CHR 0x0A)]"

definition clean_string :: "string \<Rightarrow> string" where
  "clean_string readme =
     trim (replace_all blank_lines_pattern [CHR 0x0A, CHR 0x0A]
            (replace_all comment_pattern []
              (replace_all shields_pattern []
                (replace_all badge_pattern [] readme))))"

definition cleanReadmeContent :: "js_value \<Rightarrow> string" where
  "cleanReadmeContent v =
     (case v of
        String readme \<Rightarrow> if readme = [] then [] else clean_string readme
      | _ \<Rightarrow> [])"

text \<open>
  \<open>extractInstallationInstructions\<close> has no guard: its first statement after the log
  line is \<open>readme.match(...)\<close>. Reading \<open>match\<close> of \<open>undefined\<close> or \<open>null\<close> throws a
  \<open>TypeError\<close>; a boolean and a number have no \<open>match\<close>, and calling it throws a
  \<open>TypeError\<close> as well.
\<close>

definition not_space_or_paren :: "char \<Rightarrow> bool" where
  "not_space_or_paren c = (\<not> is_space c \<and> c \<noteq> CHR '')'')"

definition podfile_pattern :: "item list" where
  "podfile_pattern = lit_i ''pod'' @ plus is_space @ [Chr is_quote] @ plus not_quote @ [Chr is_quote]"

definition carthage_pattern :: "item list" where
  "carthage_pattern =
     lit_i ''github'' @ plus is_space @ [Chr is_quote] @ plus not_quote @ lit ''/'' @ plus not_quote
     @ [Chr is_quote]"

definition spm_pattern :: "item list" where
  "spm_pattern = lit ''https://github.com/'' @ plus not_space_or_paren"

definition extractInstallationInstructions :: "js_value \<Rightarrow> js_error + InstallationInstructions" where
  "extractInstallationInstructions v =
     (case v of
        Undefined \<Rightarrow> Inl TypeError
      | Null \<Rightarrow> Inl TypeError
      | Boolean b \<Rightarrow> Inl TypeError
      | Number n \<Rightarrow> Inl TypeError
      | String readme \<Rightarrow>
          Inr \<lparr> podfile = match0 podfile_pattern readme,
                carthage = match0 carthage_pattern readme,
                spm = match0 spm_pattern readme \<rparr>)"

text \<open>
  The number of line feeds in the white space a text begins with; the proofs about the
  blank-line pattern count with it.
\<close>

definition newlines_ahead :: "string \<Rightarrow> nat" where
  "newlines_ahead s = length (filter (\<lambda>c. c = CHR 0x0A) (takeWhile is_space s))"

section \<open>The description extractor in the words of the specification\<close>

text \<open>
  The specification lets the backward scan end at a heading: nothing is returned when no
  line qualifies "before a heading boundary or the start of text". \<open>describe_spec\<close>
  follows these words, for comparison with \<open>extractBlockDescription\<close>.
\<close>

fun describe_spec_loop :: "string list \<Rightarrow> string option" where
  "describe_spec_loop [] = None"
| "describe_spec_loop (line # rest) =
     (let trimmed = trim line
      in if test_anchored (hash_prefix 6 @ [Chr is_space]) trimmed then None
         else if trimmed \<noteq> [] \<and> length trimmed > 10 then Some trimmed
         else describe_spec_loop rest)"

definition describe_spec :: "string \<Rightarrow> nat \<Rightarrow> string option" where
  "describe_spec sectionText blockOffset =
     describe_spec_loop (rev (split_lines (take blockOffset sectionText)))"

section \<open>Documents used to evaluate the parser\<close>

definition nl :: string where
  "nl = [CHR 0x0A]"

definition fence :: string where
  "fence = [CHR 0x60, CHR 0x60, CHR 0x60]"

definition bare_url :: string where
  "bare_url = ''https://example.com/abcde''"

text \<open>A section text with three fenced blocks, of which the filter rejects the first two.\<close>

definition three_blocks :: string where
  "three_blocks =
     fence @ nl @ ''1.0.0'' @ nl @ fence @ nl @
     fence @ nl @ ''https://github.com/user/repo'' @ nl @ fence @ nl @
     fence @ ''swift'' @ nl @ ''import MyLibrary'' @ nl @ fence @ nl"

text \<open>A text whose only fenced block follows a heading of level five.\<close>

definition below_heading :: string where
  "below_heading =
     ''Run the installer first'' @ nl @ ''##### Details'' @ nl @
     fence @ nl @ ''some quite long plain text'' @ nl @ fence"

text \<open>Documents without headings and with one untagged block of 20 and of 21 letters.\<close>

definition twenty_letters :: string where
  "twenty_letters = fence @ nl @ ''aaaaaaaaaaaaaaaaaaaa'' @ nl @ fence"

definition twenty_one_letters :: string where
  "twenty_one_letters = fence @ nl @ ''aaaaaaaaaaaaaaaaaaaaa'' @ nl @ fence"

text \<open>A document with a comment range and a run of blank lines.\<close>

definition noisy_readme :: string where
  "noisy_readme = ''  # Title'' @ nl @ nl @ nl @ nl @ ''text <!-- c --> end  ''"

section \<open>Properties of the cache\<close>

lemma Map_get_set_same: "Map_get (Map_set k v m) k = Some v"
  by (induction m) auto

lemma Map_get_set_other: "k' \<noteq> k \<Longrightarrow> Map_get (Map_set k v m) k' = Map_get m k'"
  by (induction m) auto

lemma Map_get_delete_same: "Map_get (Map_delete k m) k = None"
  by (induction m) auto

lemma Map_get_delete_other: "k' \<noteq> k \<Longrightarrow> Map_get (Map_delete k m) k' = Map_get m k'"
  by (induction m) auto

lemma Map_get_None_iff: "Map_get m k = None \<longleftrightarrow> k \<notin> set (map fst m)"
  by (induction m) force+

lemma Map_delete_absent: "k \<notin> set (map fst m) \<Longrightarrow> Map_delete k m = m"
  by (induction m) auto

lemma Map_set_fresh: "k \<notin> set (map fst m) \<Longrightarrow> Map_set k v m = m @ [(k, v)]"
  by (induction m) auto

lemma keys_Map_delete: "map fst (Map_delete k m) = removeAll k (map fst m)"
  by (induction m) auto

lemma distinct_Map_delete: "distinct (map fst m) \<Longrightarrow> distinct (map fst (Map_delete k m))"
  by (simp add: keys_Map_delete distinct_removeAll)

lemma keys_Map_set:
  "map fst (Map_set k v m) = (if k \<in> set (map fst m) then map fst m else map fst m @ [k])"
  by (induction m) force+

lemma distinct_Map_set: "distinct (map fst m) \<Longrightarrow> distinct (map fst (Map_set k v m))"
  by (simp add: keys_Map_set)

lemma length_Map_delete_present:
  "distinct (map fst m) \<Longrightarrow> k \<in> set (map fst m) \<Longrightarrow> Suc (length (Map_delete k m)) = length m"
  by (induction m) (force simp: Map_delete_absent)+

lemma Map_delete_nth:
  "distinct (map fst m) \<Longrightarrow> i < length m \<Longrightarrow> Map_delete (fst (m ! i)) m = take i m @ drop (Suc i) m"
proof (induction m arbitrary: i)
  case Nil
  then show ?case by simp
next
  case (Cons p m)
  obtain k v where p: "p = (k, v)" by (cases p)
  show ?case
  proof (cases i)
    case 0
    with Cons.prems p show ?thesis by (simp add: Map_delete_absent)
  next
    case (Suc j)
    with Cons.prems have j: "j < length m" by simp
    with Cons.prems p have "fst (m ! j) \<noteq> k" by (metis distinct.simps(2) fst_conv list.simps(9) nth_map nth_mem length_map)
    with Cons.IH[of j] Cons.prems j p Suc show ?thesis by simp
  qed
qed

lemma evictOldest_loop_keep:
  "\<forall>p \<in> set m. t \<le> timestamp (snd p) \<Longrightarrow> evictOldest_loop m (a, t) = (a, t)"
  by (induction m) auto

lemma evictOldest_loop_first_min:
  "i < length m \<Longrightarrow> timestamp (snd (m ! i)) < t0 \<Longrightarrow>
   \<forall>j < length m. timestamp (snd (m ! i)) \<le> timestamp (snd (m ! j)) \<Longrightarrow>
   \<forall>j < i. timestamp (snd (m ! i)) < timestamp (snd (m ! j)) \<Longrightarrow>
   evictOldest_loop m (k0, t0) = (Some (fst (m ! i)), timestamp (snd (m ! i)))"
proof (induction m arbitrary: i k0 t0)
  case Nil
  then show ?case by simp
next
  case (Cons p m)
  obtain k e where p: "p = (k, e)" by (cases p)
  show ?case
  proof (cases i)
    case 0
    have "\<forall>q \<in> set m. timestamp e \<le> timestamp (snd q)"
    proof
      fix q assume "q \<in> set m"
      then obtain j where "j < length m" "m ! j = q" by (auto simp: in_set_conv_nth)
      with Cons.prems(3)[rule_format, of "Suc j"] 0 p show "timestamp e \<le> timestamp (snd q)" by simp
    qed
    with Cons.prems 0 p show ?thesis by (simp add: evictOldest_loop_keep)
  next
    case (Suc j)
    from Cons.prems Suc have j: "j < length m" by simp
    from Cons.prems(4)[rule_format, of 0] Suc p have lt: "timestamp (snd (m ! j)) < timestamp e" by simp
    have a: "\<forall>j' < length m. timestamp (snd (m ! j)) \<le> timestamp (snd (m ! j'))"
      using Cons.prems(3) Suc by (metis Suc_less_eq length_Cons nth_Cons_Suc)
    have b: "\<forall>j' < j. timestamp (snd (m ! j)) < timestamp (snd (m ! j'))"
      using Cons.prems(4) Suc by (metis Suc_less_eq nth_Cons_Suc)
    show ?thesis
    proof (cases "timestamp e < t0")
      case True
      with Cons.IH[OF j lt a b, of "Some k"] p Suc show ?thesis by simp
    next
      case False
      from Cons.prems(2) Suc have "timestamp (snd (m ! j)) < t0" by simp
      with Cons.IH[OF j this a b, of k0] p Suc False show ?thesis by simp
    qed
  qed
qed


text \<open>
  C2, as stated, asks construction with a non-positive \<open>maxSize\<close> to fail. With
  \<open>maxSize = -5\<close> the constructor returns a cache whose \<open>maxSize\<close> is \<open>-5\<close>.
\<close>

theorem MemoryCache_new_negative_counterexample:
  "MemoryCache_new \<lparr>options_ttl = None, options_maxSize = Some (- 5)\<rparr> =
     (Inr \<lparr>cache = [], defaultTtl = 3600000, maxSize = - 5, cleanupInterval = True\<rparr>
        :: js_error + nat MemoryCache)"
  by (simp add: MemoryCache_new_def or_default_def)

text \<open>
  C2 (amended): construction never fails. It returns an empty cache whose \<open>maxSize\<close>
  is the default 1000 when the option is missing or 0, and the given number otherwise,
  a negative one included.
\<close>

theorem MemoryCache_new_never_fails:
  "\<exists>c. MemoryCache_new options = Inr c \<and> cache c = [] \<and>
        maxSize c = (case options_maxSize options of
                       None \<Rightarrow> 1000
                     | Some n \<Rightarrow> if n = 0 then 1000 else n)"
  by (simp add: MemoryCache_new_def or_default_def)

theorem MemoryCache_new_never_fails_witness:
  "\<exists>c :: nat MemoryCache. MemoryCache_new \<lparr>options_ttl = Some 50, options_maxSize = Some 0\<rparr> = Inr c \<and>
        cache c = [] \<and> maxSize c = 1000"
  using MemoryCache_new_never_fails [of "\<lparr>options_ttl = Some 50, options_maxSize = Some 0\<rparr>"]
  by simp

text \<open>
  C3, as stated, fails when the key being set is already stored: the cache holds
  \<open>maxSize = 2\<close> entries, \<open>set\<close> evicts the oldest and then overwrites the present
  key, and one entry is left.
\<close>

theorem set_entry_present_key_counterexample:
  "size_of two_entries = 2 \<and> maxSize two_entries = 2 \<and>
   size_of (set_entry two_entries ''b'' 7 None 10 10) = 1"
  by (simp add: two_entries_def size_of_def set_entry_def evictOldest_def or_default_def)

text \<open>
  Outside the amended statement: \<open>evictOldest\<close> starts from the clock reading and
  compares with a strict \<open><\<close>, so when no entry is older than that reading (all were
  stored in the same millisecond as the \<open>set\<close>) nothing is evicted and the store grows
  past \<open>maxSize\<close>.
\<close>

lemma set_entry_same_instant_overflows:
  "size_of same_instant = 2 \<and> maxSize same_instant = 2 \<and>
   size_of (set_entry same_instant ''c'' 7 None 5 5) = 3"
  by (simp add: same_instant_def size_of_def set_entry_def evictOldest_def or_default_def)

text \<open>
  C3 (amended): for a cache holding exactly \<open>maxSize\<close> entries and a key that is not
  stored yet, where the entry at position \<open>i\<close> is the first one in insertion order
  with the smallest \<open>timestamp\<close>, that timestamp is before the clock reading of the
  eviction and its key is not the empty string, one further \<open>set\<close> removes exactly that
  entry, appends the new one, and leaves the size at \<open>maxSize\<close>.
\<close>

theorem set_entry_full_evicts_oldest:
  assumes "distinct (Map_keys (cache c))"
      and "int (size_of c) = maxSize c"
      and "key \<notin> set (Map_keys (cache c))"
      and "i < size_of c"
      and "\<forall>j < size_of c. timestamp (snd (cache c ! i)) \<le> timestamp (snd (cache c ! j))"
      and "\<forall>j < i. timestamp (snd (cache c ! i)) < timestamp (snd (cache c ! j))"
      and "timestamp (snd (cache c ! i)) < tEvict"
      and "fst (cache c ! i) \<noteq> []"
  shows "cache (set_entry c key d ttl_opt tEvict tNow) =
           take i (cache c) @ drop (Suc i) (cache c) @
           [(key, \<lparr>data = d, timestamp = tNow, ttl = or_default ttl_opt (defaultTtl c)\<rparr>)]
         \<and> int (size_of (set_entry c key d ttl_opt tEvict tNow)) = maxSize c"
proof -
  let ?m = "cache c"
  let ?e = "\<lparr>data = d, timestamp = tNow, ttl = or_default ttl_opt (defaultTtl c)\<rparr>"
  from assms have i: "i < length ?m" and d: "distinct (map fst ?m)"
    by (simp_all add: size_of_def Map_keys_def)
  have loop: "evictOldest_loop ?m (None, tEvict) = (Some (fst (?m ! i)), timestamp (snd (?m ! i)))"
    using assms(5,6,7) i by (intro evictOldest_loop_first_min) (simp_all add: size_of_def)
  have ev: "cache (evictOldest c tEvict) = take i ?m @ drop (Suc i) ?m"
    using loop assms(8) d i by (simp add: evictOldest_def Map_delete_nth)
  have "set (take i ?m @ drop (Suc i) ?m) \<subseteq> set ?m"
    by (auto dest: in_set_takeD in_set_dropD)
  with assms(3) have fresh: "key \<notin> set (map fst (take i ?m @ drop (Suc i) ?m))"
    unfolding Map_keys_def by (metis (no_types, lifting) image_mono set_map subsetD)
  have c: "cache (set_entry c key d ttl_opt tEvict tNow) = (take i ?m @ drop (Suc i) ?m) @ [(key, ?e)]"
    using assms(2) ev Map_set_fresh[OF fresh, of ?e]
    by (simp add: set_entry_def size_of_def Let_def)
  moreover have "length ((take i ?m @ drop (Suc i) ?m) @ [(key, ?e)]) = length ?m"
    using i by simp
  ultimately show ?thesis using assms(2) by (simp add: size_of_def)
qed

theorem set_entry_full_evicts_oldest_witness:
  "cache (set_entry two_entries ''c'' 7 (Some 50) 10 11) =
     [(''b'', \<lparr>data = 2, timestamp = 2, ttl = 1000\<rparr>), (''c'', \<lparr>data = 7, timestamp = 11, ttl = 50\<rparr>)]
   \<and> size_of (set_entry two_entries ''c'' 7 (Some 50) 10 11) = 2"
  using set_entry_full_evicts_oldest [of two_entries "''c''" 0 10 7 "Some 50" 11]
  by (simp add: two_entries_def size_of_def Map_keys_def or_default_def less_Suc_eq)


lemma Map_keys_set_entry:
  "distinct (Map_keys (cache c)) \<Longrightarrow> distinct (Map_keys (cache (set_entry c key d ttl_opt tEvict tNow)))"
  by (simp add: set_entry_def Let_def Map_keys_def evictOldest_def distinct_Map_set distinct_Map_delete
           split: option.splits)

lemma Map_get_set_entry:
  "Map_get (cache (set_entry c key d ttl_opt tEvict tNow)) key =
     Some \<lparr>data = d, timestamp = tNow, ttl = or_default ttl_opt (defaultTtl c)\<rparr>"
  by (simp add: set_entry_def Let_def Map_get_set_same evictOldest_def split: option.splits)

text \<open>
  C5: after \<open>set(k, v, 50)\<close> at time \<open>tNow\<close>, at every time \<open>now > tNow + 50\<close> both
  \<open>get(k)\<close> and \<open>has(k)\<close> answer absent and leave the store without \<open>k\<close>: its
  size is one less, \<open>k\<close> is no longer a key, and later reads stay absent.
\<close>

theorem get_after_ttl_is_absent:
  assumes "distinct (Map_keys (cache c))"
      and "now > tNow + 50"
  shows "let c1 = set_entry c k v (Some 50) tEvict tNow;
             c2 = c1\<lparr>cache := Map_delete k (cache c1)\<rparr>
         in get c1 k now = (None, c2) \<and> has c1 k now = (False, c2) \<and>
            Suc (size_of c2) = size_of c1 \<and> k \<notin> set (keys c2) \<and>
            get c2 k now = (None, c2) \<and> has c2 k now = (False, c2)"
proof -
  let ?c1 = "set_entry c k v (Some 50) tEvict tNow"
  let ?c2 = "?c1\<lparr>cache := Map_delete k (cache ?c1)\<rparr>"
  have e: "Map_get (cache ?c1) k = Some \<lparr>data = v, timestamp = tNow, ttl = 50\<rparr>"
    by (simp add: Map_get_set_entry or_default_def)
  have g: "get ?c1 k now = (None, ?c2)" and h: "has ?c1 k now = (False, ?c2)"
    using e assms(2) by (simp_all add: get_def has_def)
  have d1: "distinct (map fst (cache ?c1))"
    using Map_keys_set_entry[OF assms(1)] by (simp add: Map_keys_def)
  have "k \<in> set (map fst (cache ?c1))"
    using e Map_get_None_iff[of "cache ?c1" k] by simp
  with d1 have sz: "Suc (size_of ?c2) = size_of ?c1"
    by (simp add: size_of_def length_Map_delete_present)
  have gone: "Map_get (cache ?c2) k = None"
    by (simp add: Map_get_delete_same)
  then have nk: "k \<notin> set (keys ?c2)"
    by (simp add: keys_def Map_keys_def Map_get_None_iff)
  from gone have "get ?c2 k now = (None, ?c2)" "has ?c2 k now = (False, ?c2)"
    by (simp_all add: get_def has_def)
  with g h sz nk show ?thesis by (simp add: Let_def)
qed

theorem get_after_ttl_is_absent_witness:
  "get (set_entry two_entries ''a'' 9 (Some 50) 100 100) ''a'' 151 =
     (None, \<lparr>cache = [(''b'', \<lparr>data = 2, timestamp = 2, ttl = 1000\<rparr>)],
             defaultTtl = 3600000, maxSize = 2, cleanupInterval = True\<rparr>)"
  using get_after_ttl_is_absent [of two_entries 100 151 "''a''" 9 100]
  by (simp add: two_entries_def Map_keys_def set_entry_def evictOldest_def Let_def or_default_def)

lemma get_unexpired:
  "Map_get (cache c) k = Some e \<Longrightarrow> \<not> now > timestamp e + ttl e \<Longrightarrow> get c k now = (Some (data e), c)"
  by (simp add: get_def)

lemma get_repeatedly_unexpired:
  "Map_get (cache c) k = Some e \<Longrightarrow> \<forall>now \<in> set nows. \<not> now > timestamp e + ttl e \<Longrightarrow>
   get_repeatedly c k nows = c"
  by (induction nows) (simp_all add: get_unexpired)

lemma Map_get_after_delete:
  "Map_get (Map_delete k m) k' = Some e \<Longrightarrow> Map_get m k' = Some e"
  by (cases "k' = k") (simp_all add: Map_get_delete_same Map_get_delete_other)

text \<open>
  C6: \<open>get\<close> and \<open>has\<close> on an unexpired entry return the cache unchanged, any number
  of \<open>get\<close>s leaves it unchanged, so \<open>evictOldest\<close> afterwards selects what it would
  have selected before; and whatever key is read, every entry found in the store after a
  \<open>get\<close> or \<open>has\<close> is the entry that was stored before it, field for field.
\<close>

theorem reads_never_refresh:
  assumes "Map_get (cache c) k = Some e"
      and "\<forall>t \<in> set nows. \<not> t > timestamp e + ttl e"
  shows "(\<forall>t \<in> set nows. get c k t = (Some (data e), c) \<and> has c k t = (True, c)) \<and>
         get_repeatedly c k nows = c \<and>
         evictOldest (get_repeatedly c k nows) tEvict = evictOldest c tEvict \<and>
         (Map_get (cache (snd (get c k2 t2))) k3 = Some e3 \<longrightarrow> Map_get (cache c) k3 = Some e3) \<and>
         (Map_get (cache (snd (has c k2 t2))) k3 = Some e3 \<longrightarrow> Map_get (cache c) k3 = Some e3)"
proof (intro conjI ballI impI)
  fix t assume "t \<in> set nows"
  with assms show "get c k t = (Some (data e), c)" "has c k t = (True, c)"
    by (simp_all add: get_def has_def)
next
  from assms show r: "get_repeatedly c k nows = c"
    by (simp add: get_repeatedly_unexpired)
  then show "evictOldest (get_repeatedly c k nows) tEvict = evictOldest c tEvict"
    by simp
next
  assume "Map_get (cache (snd (get c k2 t2))) k3 = Some e3"
  then show "Map_get (cache c) k3 = Some e3"
    by (auto simp: get_def split: option.splits if_splits dest: Map_get_after_delete)
next
  assume "Map_get (cache (snd (has c k2 t2))) k3 = Some e3"
  then show "Map_get (cache c) k3 = Some e3"
    by (auto simp: has_def split: option.splits if_splits dest: Map_get_after_delete)
qed

theorem reads_never_refresh_witness:
  "get_repeatedly two_entries ''a'' [3, 4, 5] = two_entries \<and>
   cache (evictOldest (get_repeatedly two_entries ''a'' [3, 4, 5]) 10) =
     [(''b'', \<lparr>data = 2, timestamp = 2, ttl = 1000\<rparr>)]"
  using reads_never_refresh [of two_entries "''a''" "\<lparr>data = 1, timestamp = 1, ttl = 1000\<rparr>" "[3, 4, 5]" 10]
  by (simp add: two_entries_def evictOldest_def)

section \<open>Properties of the parser\<close>

text \<open>
  C8: the reject checks of the relevance filter come first. Whenever the trimmed body
  matches one of the noise patterns, \<open>isRelevantCodeBlock\<close> is false, whatever the
  declared language and however long the body: neither the language allow-set nor the
  length fallback is reached.
\<close>

theorem noise_rejected_before_accepts:
  assumes "list_ex (\<lambda>pattern. test_anchored pattern (trim code_text)) irrelevantPatterns"
  shows "\<not> isRelevantCodeBlock code_text lang"
  using assms by (simp add: isRelevantCodeBlock_def)

theorem noise_rejected_before_accepts_witness:
  "length bare_url = 25 \<and> toLowerCase ''swift'' \<in> set relevantLanguages \<and>
   \<not> isRelevantCodeBlock bare_url ''swift'' \<and> \<not> isRelevantCodeBlock bare_url [] \<and>
   \<not> isRelevantCodeBlock ''1.2.3'' []"
proof -
  have h: "list_ex (\<lambda>pattern. test_anchored pattern (trim bare_url)) irrelevantPatterns"
    by code_simp
  have v: "list_ex (\<lambda>pattern. test_anchored pattern (trim ''1.2.3'')) irrelevantPatterns"
    by code_simp
  have "length bare_url = 25" "toLowerCase ''swift'' \<in> set relevantLanguages"
    by code_simp+
  with noise_rejected_before_accepts [OF h, of "''swift''"]
       noise_rejected_before_accepts [OF h, of "[]"]
       noise_rejected_before_accepts [OF v, of "[]"]
  show ?thesis by simp
qed

lemma forEach_block_indexed:
  "forEach_block sectionTitle content n k blocks =
     map (\<lambda>(index, block).
            \<lparr> title = (if n = 1 then sectionTitle else sectionTitle @ '' '' @ digits (index + 1)),
              description = extractBlockDescription content (originalIndex block),
              code = trim (block_code block),
              language = (if block_language block \<noteq> [] then block_language block
                          else detectLanguage (block_code block)) \<rparr>)
         (filter (\<lambda>(index, block). isRelevantCodeBlock (block_code block) (block_language block))
            (zip [k ..< k + length blocks] blocks))"
proof (induction blocks arbitrary: k)
  case Nil
  then show ?case by simp
next
  case (Cons b blocks)
  have "[k ..< k + length (b # blocks)] = k # [Suc k ..< Suc k + length blocks]"
    using upt_conv_Cons [of k "k + Suc (length blocks)"] by simp
  with Cons.IH[of "Suc k"] show ?case by simp
qed

text \<open>
  C10: the examples of a section are the blocks that pass the relevance filter, in
  order, each titled by its position among all the blocks extracted from the section
  text: the section title alone when there is exactly one block, and otherwise the
  section title, a space and the block's 1-based index, rejected blocks counted.
\<close>

theorem titles_count_rejected_blocks:
  "extractCodeBlocksFromSection sectionTitle content =
     map (\<lambda>(index, block).
            \<lparr> title = (if length (extractCodeBlocks content) = 1 then sectionTitle
                       else sectionTitle @ '' '' @ digits (index + 1)),
              description = extractBlockDescription content (originalIndex block),
              code = trim (block_code block),
              language = (if block_language block \<noteq> [] then block_language block
                          else detectLanguage (block_code block)) \<rparr>)
         (filter (\<lambda>(index, block). isRelevantCodeBlock (block_code block) (block_language block))
            (zip [0 ..< length (extractCodeBlocks content)] (extractCodeBlocks content)))"
  by (simp add: extractCodeBlocksFromSection_def Let_def forEach_block_indexed)

theorem titles_count_rejected_blocks_witness:
  "map block_code (extractCodeBlocks three_blocks) =
     [''1.0.0'', ''https://github.com/user/repo'', ''import MyLibrary''] \<and>
   map title (extractCodeBlocksFromSection ''Usage'' three_blocks) = [''Usage 3'']"
proof -
  have b: "extractCodeBlocks three_blocks =
     [\<lparr>block_code = ''1.0.0'', block_language = [], originalIndex = 0\<rparr>,
      \<lparr>block_code = ''https://github.com/user/repo'', block_language = [], originalIndex = 14\<rparr>,
      \<lparr>block_code = ''import MyLibrary'', block_language = ''swift'', originalIndex = 51\<rparr>]"
    by code_simp
  have r: "\<not> isRelevantCodeBlock ''1.0.0'' []"
          "\<not> isRelevantCodeBlock ''https://github.com/user/repo'' []"
          "isRelevantCodeBlock ''import MyLibrary'' ''swift''"
    by code_simp+
  have d: "digits 3 = ''3''" by code_simp
  have u: "[0 ..< 3] = [0, 1, 2]" by code_simp
  show ?thesis
    using titles_count_rejected_blocks [of "''Usage''" three_blocks]
    by (simp add: b r d u)
qed

text \<open>
  On strings \<open>extractInstallationInstructions\<close> returns normally: each field is absent
  exactly when its probe finds no match, and the empty document gives \<open>{}\<close>.
\<close>

lemma extractInstallationInstructions_on_strings:
  "(\<exists>r. extractInstallationInstructions (String readme) = Inr r \<and>
        (podfile r = None \<longleftrightarrow> \<not> test podfile_pattern readme) \<and>
        (carthage r = None \<longleftrightarrow> \<not> test carthage_pattern readme) \<and>
        (spm r = None \<longleftrightarrow> \<not> test spm_pattern readme)) \<and>
   extractInstallationInstructions (String []) =
     Inr \<lparr>podfile = None, carthage = None, spm = None\<rparr>"
proof (intro conjI)
  show "\<exists>r. extractInstallationInstructions (String readme) = Inr r \<and>
        (podfile r = None \<longleftrightarrow> \<not> test podfile_pattern readme) \<and>
        (carthage r = None \<longleftrightarrow> \<not> test carthage_pattern readme) \<and>
        (spm r = None \<longleftrightarrow> \<not> test spm_pattern readme)"
    by (simp add: extractInstallationInstructions_def match0_def test_def split: option.splits)
next
  show "extractInstallationInstructions (String []) =
     Inr \<lparr>podfile = None, carthage = None, spm = None\<rparr>"
    by (simp add: extractInstallationInstructions_def match0_def podfile_pattern_def
          carthage_pattern_def spm_pattern_def lit_def lit_i_def)
qed

text \<open>
  C1 asks \<open>extractInstallationInstructions\<close> to return \<open>{}\<close> for a missing document,
  \<open>null\<close> included, as its sibling entry points do: on \<open>null\<close> and \<open>undefined\<close>
  \<open>parseUsageExamples\<close> returns \<open>[]\<close> and \<open>cleanReadmeContent\<close> returns the empty string,
  both through the guard \<open>!readme || typeof readme !== 'string'\<close>.
  \<open>extractInstallationInstructions\<close> lacks that guard and throws on the same inputs.
\<close>

theorem extractInstallationInstructions_null_raises:
  "parseUsageExamples Null = [] \<and> cleanReadmeContent Null = [] \<and>
   extractInstallationInstructions Null = Inl TypeError \<and>
   parseUsageExamples Undefined = [] \<and> cleanReadmeContent Undefined = [] \<and>
   extractInstallationInstructions Undefined = Inl TypeError"
  by (simp add: parseUsageExamples_def cleanReadmeContent_def extractInstallationInstructions_def)

text \<open>
  C7, as stated, lets the scan end at a heading boundary. In \<open>below_heading\<close> the block
  starts at offset 38, right below a heading, and the only qualifying line is above that
  heading: the specification's extractor returns nothing, the code returns that line.
\<close>

theorem description_past_heading_counterexample:
  "extractCodeBlocks below_heading =
     [\<lparr>block_code = ''some quite long plain text'', block_language = [], originalIndex = 38\<rparr>] \<and>
   describe_spec below_heading 38 = None \<and>
   extractBlockDescription below_heading 38 = Some ''Run the installer first''"
  by code_simp

lemma description_loop_find:
  "description_loop ls = List.find is_description (map trim ls)"
  by (induction ls) (simp_all add: Let_def)

text \<open>
  C7 (amended): the description extractor returns the first line of the text before the
  offset, scanning the lines in reverse order, that after trimming is non-empty, not a
  heading and longer than 10 characters, and returns nothing exactly when no line before
  the offset qualifies. A heading line is skipped like any other line that does not
  qualify; it does not end the scan.
\<close>

theorem description_is_first_qualifying_line:
  "extractBlockDescription content blockIndex =
     List.find is_description (map trim (rev (split_lines (take blockIndex content)))) \<and>
   (extractBlockDescription content blockIndex = None \<longleftrightarrow>
      (\<forall>line \<in> set (split_lines (take blockIndex content)). \<not> is_description (trim line)))"
  by (auto simp: extractBlockDescription_def Let_def description_loop_find find_None_iff)

theorem description_is_first_qualifying_line_witness:
  "map trim (rev (split_lines (take 38 below_heading))) =
     [[], ''##### Details'', ''Run the installer first''] \<and>
   extractBlockDescription below_heading 38 = Some ''Run the installer first''"
proof -
  have l: "map trim (rev (split_lines (take 38 below_heading))) =
     [[], ''##### Details'', ''Run the installer first'']"
    by code_simp
  have d: "\<not> is_description []" "\<not> is_description ''##### Details''"
          "is_description ''Run the installer first''"
    by code_simp+
  show ?thesis
    using description_is_first_qualifying_line [of below_heading 38]
    by (simp add: l d)
qed

lemma parse_loop_no_heading:
  "\<not> list_ex is_heading ls \<Longrightarrow>
   parse_loop ls (examples, currentSection, False, sectionContent) =
     (examples, currentSection, False, sectionContent)"
  by (induction ls) simp_all

lemma section_examples_no_heading:
  "\<not> list_ex is_heading (split_lines readme) \<Longrightarrow> section_examples readme = []"
  by (simp add: section_examples_def parse_loop_no_heading)

lemma extractCodeBlocks_Nil: "extractCodeBlocks [] = []"
  by (simp add: extractCodeBlocks_def)

text \<open>
  C9, as stated, promises one example for a single untagged block of at least 20
  characters. \<open>twenty_letters\<close> has no heading and one untagged block of exactly 20
  letters; the length fallback asks for more than 20, and no example is returned.
\<close>

theorem twenty_letters_counterexample:
  "\<not> list_ex is_heading (split_lines twenty_letters) \<and>
   extractCodeBlocks twenty_letters =
     [\<lparr>block_code = ''aaaaaaaaaaaaaaaaaaaa'', block_language = [], originalIndex = 0\<rparr>] \<and>
   length ''aaaaaaaaaaaaaaaaaaaa'' = 20 \<and>
   parseUsageExamples (String twenty_letters) = []"
  by code_simp

text \<open>
  C9 (amended): when the section-driven pass yields no example, the whole original text
  is run once through the extractor under the title \<open>General Usage\<close>. In particular, for
  every document with no heading line and exactly one fenced block that is untagged, is
  longer than 20 characters, has at least 10 characters after trimming and matches no
  noise pattern, \<open>parseUsageExamples\<close> returns exactly one example, titled
  \<open>General Usage\<close>.
\<close>

theorem fallback_general_usage:
  "(readme \<noteq> [] \<and> section_examples readme = [] \<longrightarrow>
      parseUsageExamples (String readme) =
        deduplicateExamples (extractCodeBlocksFromSection ''General Usage'' readme)) \<and>
   (\<not> list_ex is_heading (split_lines readme) \<and>
    extractCodeBlocks readme = [block] \<and>
    block_language block = [] \<and>
    length (block_code block) > 20 \<and>
    length (trim (block_code block)) \<ge> 10 \<and>
    \<not> list_ex (\<lambda>pattern. test_anchored pattern (trim (block_code block))) irrelevantPatterns \<longrightarrow>
      parseUsageExamples (String readme) =
        [\<lparr> title = ''General Usage'',
           description = extractBlockDescription readme (originalIndex block),
           code = trim (block_code block),
           language = detectLanguage (block_code block) \<rparr>])"
proof (intro conjI impI)
  assume "readme \<noteq> [] \<and> section_examples readme = []"
  then show "parseUsageExamples (String readme) =
        deduplicateExamples (extractCodeBlocksFromSection ''General Usage'' readme)"
    by (simp add: parseUsageExamples_def)
next
  assume a: "\<not> list_ex is_heading (split_lines readme) \<and>
    extractCodeBlocks readme = [block] \<and>
    block_language block = [] \<and>
    length (block_code block) > 20 \<and>
    length (trim (block_code block)) \<ge> 10 \<and>
    \<not> list_ex (\<lambda>pattern. test_anchored pattern (trim (block_code block))) irrelevantPatterns"
  then have ne: "readme \<noteq> []"
    using extractCodeBlocks_Nil by auto
  from a have s: "section_examples readme = []"
    by (simp add: section_examples_no_heading)
  from a have c: "block_code block \<noteq> []" by auto
  from a c have r: "isRelevantCodeBlock (block_code block) (block_language block)"
    by (simp add: isRelevantCodeBlock_def)
  from a r have "extractCodeBlocksFromSection ''General Usage'' readme =
        [\<lparr> title = ''General Usage'',
           description = extractBlockDescription readme (originalIndex block),
           code = trim (block_code block),
           language = detectLanguage (block_code block) \<rparr>]"
    by (simp add: extractCodeBlocksFromSection_def)
  with ne s show "parseUsageExamples (String readme) =
        [\<lparr> title = ''General Usage'',
           description = extractBlockDescription readme (originalIndex block),
           code = trim (block_code block),
           language = detectLanguage (block_code block) \<rparr>]"
    by (simp add: parseUsageExamples_def deduplicateExamples_def Let_def)
qed

theorem fallback_general_usage_witness:
  "parseUsageExamples (String twenty_one_letters) =
     [\<lparr> title = ''General Usage'', description = None,
        code = ''aaaaaaaaaaaaaaaaaaaaa'', language = ''text'' \<rparr>]"
proof -
  let ?b = "\<lparr>block_code = ''aaaaaaaaaaaaaaaaaaaaa'', block_language = [], originalIndex = 0\<rparr>"
  have h: "\<not> list_ex is_heading (split_lines twenty_one_letters)" by code_simp
  have b: "extractCodeBlocks twenty_one_letters = [?b]" by code_simp
  have t: "trim ''aaaaaaaaaaaaaaaaaaaaa'' = ''aaaaaaaaaaaaaaaaaaaaa''" by code_simp
  have n: "\<not> list_ex (\<lambda>pattern. test_anchored pattern ''aaaaaaaaaaaaaaaaaaaaa'') irrelevantPatterns"
    by code_simp
  have d: "extractBlockDescription twenty_one_letters 0 = None" by code_simp
  have l: "detectLanguage ''aaaaaaaaaaaaaaaaaaaaa'' = ''text''" by code_simp
  show ?thesis
    using fallback_general_usage [of twenty_one_letters ?b]
    by (simp add: h b t n d l)
qed

subsection \<open>Cleaning a document twice\<close>

lemma is_space_nl: "is_space (CHR 0x0A)"
  by (simp add: is_space_def)

lemma newlines_ahead_Nil: "newlines_ahead [] = 0"
  by (simp add: newlines_ahead_def)

lemma newlines_ahead_Cons:
  "newlines_ahead (c # cs) =
     (if is_space c then (if c = CHR 0x0A then 1 else 0) + newlines_ahead cs else 0)"
  by (simp add: newlines_ahead_def)

lemma newlines_ahead_append: "newlines_ahead s \<le> newlines_ahead (s @ w)"
  by (induction s) (simp_all add: newlines_ahead_Cons newlines_ahead_Nil)

lemma star_nl_iff:
  "rx [Star is_space, Chr (\<lambda>c. c = CHR 0x0A)] t \<noteq> None \<longleftrightarrow> 1 \<le> newlines_ahead t"
  by (induction t) (auto simp: newlines_ahead_Cons newlines_ahead_Nil is_space_nl split: option.splits)

lemma star_nl_star_nl_iff:
  "rx [Star is_space, Chr (\<lambda>c. c = CHR 0x0A), Star is_space, Chr (\<lambda>c. c = CHR 0x0A)] t \<noteq> None
     \<longleftrightarrow> 2 \<le> newlines_ahead t"
proof (induction t)
  case Nil
  then show ?case by (simp add: newlines_ahead_Nil)
next
  case (Cons c cs)
  show ?case
  proof (cases "is_space c")
    case True
    have "rx [Star is_space, Chr (\<lambda>c. c = CHR 0x0A), Star is_space, Chr (\<lambda>c. c = CHR 0x0A)] (c # cs) \<noteq> None
        \<longleftrightarrow> rx [Star is_space, Chr (\<lambda>c. c = CHR 0x0A), Star is_space, Chr (\<lambda>c. c = CHR 0x0A)] cs \<noteq> None
            \<or> (c = CHR 0x0A \<and> rx [Star is_space, Chr (\<lambda>c. c = CHR 0x0A)] cs \<noteq> None)"
      using True by (auto split: option.splits)
    then show ?thesis
      using Cons.IH True star_nl_iff[of cs] by (auto simp: newlines_ahead_Cons)
  next
    case False
    then have "c \<noteq> CHR 0x0A" using is_space_nl by auto
    with False show ?thesis by (simp add: newlines_ahead_Cons)
  qed
qed

lemma is_char_lambda: "is_char a = (\<lambda>c. c = a)"
  by (rule ext) (simp add: is_char_def)

lemma blank_match_iff:
  "rx blank_lines_pattern (c # cs) \<noteq> None \<longleftrightarrow> c = CHR 0x0A \<and> 2 \<le> newlines_ahead cs"
  using star_nl_star_nl_iff[of cs] by (simp add: blank_lines_pattern_def is_char_lambda)

lemma star_nl_end:
  "rx [Star is_space, Chr (\<lambda>c. c = CHR 0x0A)] t = Some m \<Longrightarrow> newlines_ahead (last m) = 0"
proof (induction t)
  case Nil
  then show ?case by simp
next
  case (Cons c cs)
  show ?case
  proof (cases "rx [Star is_space, Chr (\<lambda>c. c = CHR 0x0A)] cs")
    case None
    then have "newlines_ahead cs = 0" using star_nl_iff[of cs] by simp
    with Cons.prems None show ?thesis
      by (auto split: if_splits)
  next
    case (Some m')
    with Cons show ?thesis
      by (auto simp: is_space_nl split: if_splits)
  qed
qed

lemma star_nl_star_nl_end:
  "rx [Star is_space, Chr (\<lambda>c. c = CHR 0x0A), Star is_space, Chr (\<lambda>c. c = CHR 0x0A)] t = Some m
     \<Longrightarrow> newlines_ahead (last m) = 0"
proof (induction t)
  case Nil
  then show ?case by simp
next
  case (Cons c cs)
  show ?case
  proof (cases "rx [Star is_space, Chr (\<lambda>c. c = CHR 0x0A), Star is_space, Chr (\<lambda>c. c = CHR 0x0A)] cs")
    case None
    with Cons.prems show ?thesis
      by (auto split: if_splits dest: star_nl_end)
  next
    case (Some m')
    with Cons show ?thesis
      by (auto simp: is_space_nl split: if_splits)
  qed
qed

lemma blank_match_end:
  "rx blank_lines_pattern (c # cs) = Some m \<Longrightarrow> newlines_ahead (last m) = 0"
  by (auto simp: blank_lines_pattern_def is_char_lambda split: if_splits dest: star_nl_star_nl_end)

lemma blank_match_shorter:
  "rx blank_lines_pattern (c # cs) = Some m \<Longrightarrow> length (last m) < Suc (length cs)"
  using rx_Chr_rest[of "is_char CHR 0x0A" _ "c # cs" m] by (simp add: blank_lines_pattern_def)

lemma exec_None_Cons: "exec p (c # cs) = None \<longleftrightarrow> rx p (c # cs) = None \<and> exec p cs = None"
  by (auto split: option.splits)

lemma exec_blank_Nil: "exec blank_lines_pattern [] = None"
  by (simp add: blank_lines_pattern_def)

text \<open>
  Collapsing the blank lines leaves no match of the blank-line pattern behind: a match
  ends at the last line feed of the white space it starts in.
\<close>

lemma collapse_invariant:
  "newlines_ahead (replace_all blank_lines_pattern [CHR 0x0A, CHR 0x0A] s) \<le> newlines_ahead s \<and>
   newlines_ahead (replace_all blank_lines_pattern [CHR 0x0A, CHR 0x0A] s) \<le> 2 \<and>
   exec blank_lines_pattern (replace_all blank_lines_pattern [CHR 0x0A, CHR 0x0A] s) = None"
proof (induction s rule: length_induct)
  case (1 s)
  let ?R = "replace_all blank_lines_pattern [CHR 0x0A, CHR 0x0A]"
  show ?case
  proof (cases s)
    case Nil
    then show ?thesis by (simp add: blank_lines_pattern_def newlines_ahead_Nil)
  next
    case (Cons c cs)
    show ?thesis
    proof (cases "rx blank_lines_pattern (c # cs)")
      case None
      from 1 Cons have ih: "newlines_ahead (?R cs) \<le> newlines_ahead cs"
        "newlines_ahead (?R cs) \<le> 2" "exec blank_lines_pattern (?R cs) = None"
        by simp_all
      from None have nm: "\<not> (c = CHR 0x0A \<and> 2 \<le> newlines_ahead cs)"
        using blank_match_iff[of c cs] by simp
      have z: "?R s = c # ?R cs" using Cons None by simp
      have "rx blank_lines_pattern (c # ?R cs) = None"
        using nm ih(1) blank_match_iff[of c "?R cs"] by auto
      with ih z nm show ?thesis
        by (auto simp: Cons newlines_ahead_Cons exec_None_Cons)
    next
      case (Some m)
      have sh: "length (last m) < Suc (length cs)" using Some by (rule blank_match_shorter)
      from Some have c: "c = CHR 0x0A" "2 \<le> newlines_ahead cs"
        using blank_match_iff[of c cs] by auto
      from Some have e: "newlines_ahead (last m) = 0" by (rule blank_match_end)
      from 1 sh Cons have ih: "newlines_ahead (?R (last m)) \<le> newlines_ahead (last m)"
        "exec blank_lines_pattern (?R (last m)) = None"
        by simp_all
      with e have z0: "newlines_ahead (?R (last m)) = 0" by simp
      have z: "?R s = CHR 0x0A # CHR 0x0A # ?R (last m)" using Cons Some sh by simp
      have r1: "rx blank_lines_pattern (CHR 0x0A # ?R (last m)) = None"
        using z0 blank_match_iff[of "CHR 0x0A" "?R (last m)"] by auto
      have r2: "rx blank_lines_pattern (CHR 0x0A # CHR 0x0A # ?R (last m)) = None"
        using z0 blank_match_iff[of "CHR 0x0A" "CHR 0x0A # ?R (last m)"]
        by (auto simp: newlines_ahead_Cons is_space_nl)
      from z z0 c r1 r2 ih(2) show ?thesis
        by (simp add: Cons newlines_ahead_Cons is_space_nl exec_None_Cons)
    qed
  qed
qed

lemma exec_None_suffix: "exec p (xs @ ys) = None \<Longrightarrow> exec p ys = None"
  by (induction xs) (auto split: option.splits)

lemma exec_blank_prefix:
  "exec blank_lines_pattern (y @ w) = None \<Longrightarrow> exec blank_lines_pattern y = None"
proof (induction y)
  case Nil
  then show ?case by (simp add: blank_lines_pattern_def)
next
  case (Cons c y)
  from Cons.prems have a: "rx blank_lines_pattern (c # y @ w) = None"
    and b: "exec blank_lines_pattern (y @ w) = None"
    by (simp_all split: option.splits)
  from a have "\<not> (c = CHR 0x0A \<and> 2 \<le> newlines_ahead (y @ w))"
    using blank_match_iff[of c "y @ w"] by simp
  then have "\<not> (c = CHR 0x0A \<and> 2 \<le> newlines_ahead y)"
    using newlines_ahead_append[of y w] by auto
  then have "rx blank_lines_pattern (c # y) = None"
    using blank_match_iff[of c y] by auto
  with Cons.IH[OF b] show ?case by simp
qed

lemma exec_blank_trim:
  assumes "exec blank_lines_pattern z = None"
  shows "exec blank_lines_pattern (trim z) = None"
proof -
  let ?a = "dropWhile is_space z"
  have "z = takeWhile is_space z @ ?a" by simp
  with assms have a: "exec blank_lines_pattern ?a = None"
    using exec_None_suffix[of blank_lines_pattern "takeWhile is_space z" ?a] by simp
  have "rev ?a = takeWhile is_space (rev ?a) @ dropWhile is_space (rev ?a)" by simp
  then have "?a = rev (dropWhile is_space (rev ?a)) @ rev (takeWhile is_space (rev ?a))"
    by (metis rev_append rev_rev_ident)
  with a have "exec blank_lines_pattern (rev (dropWhile is_space (rev ?a))) = None"
    using exec_blank_prefix[of "rev (dropWhile is_space (rev ?a))" "rev (takeWhile is_space (rev ?a))"]
    by simp
  then show ?thesis by (simp add: trim_def)
qed

lemma clean_string_no_blank_run: "exec blank_lines_pattern (clean_string x) = None"
  unfolding clean_string_def by (intro exec_blank_trim conjunct2 [OF conjunct2 [OF collapse_invariant]])

lemma replace_all_no_match: "exec p s = None \<Longrightarrow> replace_all p r s = s"
  by (induction s) (auto simp: exec_None_Cons split: option.splits)

lemma dropWhile_self: "xs = [] \<or> \<not> P (hd xs) \<Longrightarrow> dropWhile P xs = xs"
  by (cases xs) auto

lemma strip_end:
  assumes "a = [] \<or> \<not> P (hd a)"
  shows "dropWhile P (rev (dropWhile P (rev a))) = rev (dropWhile P (rev a))"
proof -
  let ?d = "dropWhile P (rev a)"
  have split: "a = rev ?d @ rev (takeWhile P (rev a))"
    by (metis rev_append rev_rev_ident takeWhile_dropWhile_id)
  have "rev ?d = [] \<or> \<not> P (hd (rev ?d))"
  proof (cases "rev ?d = []")
    case True
    then show ?thesis by (rule disjI1)
  next
    case False
    with split have "hd a = hd (rev ?d)" by (metis hd_append2)
    moreover from False split have "a \<noteq> []" by (metis append_is_Nil_conv)
    ultimately show ?thesis using assms by metis
  qed
  then show ?thesis by (rule dropWhile_self)
qed

lemma trim_trim: "trim (trim s) = trim s"
proof -
  let ?a = "dropWhile is_space s"
  have "?a = [] \<or> \<not> is_space (hd ?a)"
    using hd_dropWhile[of is_space s] by blast
  then have "dropWhile is_space (rev (dropWhile is_space (rev ?a))) = rev (dropWhile is_space (rev ?a))"
    by (rule strip_end)
  then show ?thesis by (simp add: trim_def dropWhile_idem)
qed

text \<open>
  C4, as stated, fails: removing a comment range can splice the text around it into a
  new comment range, which only a second pass removes.
\<close>

theorem clean_not_idempotent_counterexample:
  "cleanReadmeContent (String ''<!-<!-- -->- x -->'') = ''<!-- x -->'' \<and>
   cleanReadmeContent (String (cleanReadmeContent (String ''<!-<!-- -->- x -->''))) = []"
  by code_simp

text \<open>
  C4 (amended): \<open>cleanReadmeContent\<close> applied to its own result returns that result
  whenever the result contains no badge link, no shields image and no comment range any
  more. (The result never contains a run of blank lines and is always trimmed.)
\<close>

theorem clean_idempotent_when_nothing_left:
  assumes "\<not> test badge_pattern (cleanReadmeContent v)"
      and "\<not> test shields_pattern (cleanReadmeContent v)"
      and "\<not> test comment_pattern (cleanReadmeContent v)"
  shows "cleanReadmeContent (String (cleanReadmeContent v)) = cleanReadmeContent v"
proof (cases "cleanReadmeContent v = []")
  case True
  then show ?thesis by (simp add: cleanReadmeContent_def)
next
  case False
  then obtain x where v: "v = String x" and x: "x \<noteq> []"
    by (cases v) (auto simp: cleanReadmeContent_def split: if_splits)
  let ?y = "clean_string x"
  have y: "cleanReadmeContent v = ?y" using v x by (simp add: cleanReadmeContent_def)
  have t: "trim ?y = ?y" by (simp add: clean_string_def trim_trim)
  have b: "exec blank_lines_pattern ?y = None"
    by (rule clean_string_no_blank_run)
  have "exec badge_pattern ?y = None" "exec shields_pattern ?y = None"
    "exec comment_pattern ?y = None"
    using assms unfolding test_def y by blast+
  with b have "clean_string ?y = trim ?y"
    by (simp add: clean_string_def replace_all_no_match)
  with t y False show ?thesis by (simp add: cleanReadmeContent_def)
qed

theorem clean_idempotent_when_nothing_left_witness:
  "cleanReadmeContent (String noisy_readme) = ''# Title'' @ nl @ nl @ ''text  end'' \<and>
   cleanReadmeContent (String (cleanReadmeContent (String noisy_readme))) =
     cleanReadmeContent (String noisy_readme)"
proof -
  have c: "cleanReadmeContent (String noisy_readme) = ''# Title'' @ nl @ nl @ ''text  end''"
    by code_simp
  have h: "\<not> test badge_pattern (''# Title'' @ nl @ nl @ ''text  end'')"
          "\<not> test shields_pattern (''# Title'' @ nl @ nl @ ''text  end'')"
          "\<not> test comment_pattern (''# Title'' @ nl @ nl @ ''text  end'')"
    by code_simp+
  show ?thesis
    using clean_idempotent_when_nothing_left [of "String noisy_readme"] h
    by (simp add: c)
qed

end
